theory Spec2Isabelle
  imports Main "HOL-Library.Word"
begin

unbundle bit_operations_syntax

section \<open>Data model\<close>

text \<open>
  The program is the flag-driven traceroute: \<open>main\<close> escalates the TTL and calls
  \<open>probe\<close> once per probe; \<open>probe\<close> sets the read deadline, builds and sends one ICMP
  Echo Request and then reads datagrams from the shared raw socket until one of them belongs
  to this probe or the read fails.

  Go's \<open>int\<close> (64 bits) is modelled as \<open>int\<close> for the TTL, which is at most
  \<open>maxTTL + 1\<close>, and for the probe counter, which is one more than the number of probes
  sent: a run would have to go through \<open>2^63\<close> hops or probes before either wraps. The
  one product the program computes, the wait time in nanoseconds, is an \<open>int64\<close> and wraps;
  it is written with \<open>int64\<close> below. Bytes and the 16-bit fields of the ICMP wire format
  are words.
\<close>

text \<open>The value of an \<open>int64\<close> computation whose exact result is \<open>k\<close>: two's complement
  wrap-around.\<close>

definition int64 :: "int \<Rightarrow> int" where
  "int64 k = (k + 9223372036854775808) mod 18446744073709551616 - 9223372036854775808"

text \<open>\<open>time.Since(startTime)\<close> at the instant \<open>now\<close>: a \<open>time.Duration\<close> in nanoseconds,
  which stops at the largest and the smallest \<open>int64\<close> instead of wrapping. Instants are
  integers of nanoseconds; the clock readings of a run are far inside what \<open>time.Time\<close> holds.\<close>

definition Since :: "int \<Rightarrow> int \<Rightarrow> int" where
  "Since now startTime =
     (if now - startTime > 9223372036854775807 then 9223372036854775807
      else if now - startTime < - 9223372036854775808 then - 9223372036854775808
      else now - startTime)"

type_synonym byte = "8 word"
type_synonym Addr = string
type_synonym ICMPType = int

abbreviation (input) ICMPTypeEchoReply :: ICMPType where "ICMPTypeEchoReply \<equiv> 0"
abbreviation (input) ICMPTypeEcho :: ICMPType where "ICMPTypeEcho \<equiv> 8"
abbreviation (input) ICMPTypeTimeExceeded :: ICMPType where "ICMPTypeTimeExceeded \<equiv> 11"

text \<open>An \<open>error\<close> value: the deadline of a read elapsed, or anything else.\<close>

datatype error = ErrDeadlineExceeded | ErrOther string

text \<open>A run-time panic of Go: it unwinds \<open>probe\<close> and \<open>main\<close> and ends the process.\<close>

datatype go_panic = SliceBoundsOutOfRange | IndexOutOfRange | TypeAssertionFailed

text \<open>\<open>icmp.MessageBody\<close>: the bodies \<open>probe\<close> looks at, and one for every other kind.\<close>

datatype MessageBody =
    Echo (ID: int) (Seq: int) (EchoData: "byte list")
  | TimeExceeded (Data: "byte list")
  | RawBody "byte list"

record Message =
  Type :: ICMPType
  Code :: int
  Checksum :: int
  Body :: MessageBody

text \<open>
  What \<open>probe\<close> returns: \<open>Failed err\<close> is \<open>(nil, 0, 0, err)\<close>, \<open>Responded a d t\<close> is
  \<open>(a, d, t, nil)\<close>, and \<open>Panicked p\<close> is a panic raised inside the call.
\<close>

datatype probe_result =
    Panicked go_panic
  | Failed error
  | Responded Addr int ICMPType

section \<open>The socket\<close>

text \<open>
  One call of \<open>conn.ReadFrom\<close> returns an error or a datagram with its sender. The
  connection holds the script of what the coming reads return, each with the clock reading
  at which the read returns; when the script is used up nothing arrives any more and the
  read ends with the deadline. \<open>setDeadlineErr\<close> and \<open>writeErr\<close> are the errors, if any,
  with which \<open>SetReadDeadline\<close> and \<open>WriteTo\<close> fail on this connection. \<open>sent\<close> lists the
  datagrams written so far with the TTL in force and the destination.
\<close>

datatype read_result = ReadErr error | ReadOK "byte list" Addr

record Conn =
  clock :: int
  readDeadline :: "int option"
  ttl :: int
  setDeadlineErr :: "error option"
  writeErr :: "error option"
  sent :: "(int \<times> Addr \<times> byte list) list"
  inbox :: "(int \<times> read_result) list"

definition SetReadDeadline :: "Conn \<Rightarrow> int \<Rightarrow> error option \<times> Conn" where
  "SetReadDeadline conn t =
     (case setDeadlineErr conn of
        Some err \<Rightarrow> (Some err, conn)
      | None \<Rightarrow> (None, conn\<lparr>readDeadline := Some t\<rparr>))"

text \<open>
  \<open>SetTTL\<close> sets the socket option \<open>IP_TTL\<close>. The system takes a TTL from 1 to 255; any
  other value the driver can pass (it starts at 1) is refused with an error and the option
  keeps the value it had.
\<close>

definition SetTTL :: "Conn \<Rightarrow> int \<Rightarrow> error option \<times> Conn" where
  "SetTTL conn TTL =
     (if 1 \<le> TTL \<and> TTL \<le> 255 then (None, conn\<lparr>ttl := TTL\<rparr>)
      else (Some (ErrOther ''invalid argument''), conn))"

definition WriteTo :: "Conn \<Rightarrow> byte list \<Rightarrow> Addr \<Rightarrow> error option \<times> Conn" where
  "WriteTo conn b dst =
     (case writeErr conn of
        Some err \<Rightarrow> (Some err, conn)
      | None \<Rightarrow> (None, conn\<lparr>sent := sent conn @ [(ttl conn, dst, b)]\<rparr>))"

section \<open>Slices and big-endian fields\<close>

text \<open>
  \<open>s[lo:hi]\<close> panics unless \<open>lo \<le> hi \<le> cap(s)\<close>. The slices \<open>probe\<close> cuts are bodies of
  parsed messages, which the parser allocates with \<open>make([]byte, n)\<close>: their capacity is
  their length.
\<close>

definition goSlice :: "'a list \<Rightarrow> nat \<Rightarrow> nat \<Rightarrow> go_panic + 'a list" where
  "goSlice s lo hi =
     (if lo \<le> hi \<and> hi \<le> length s then Inr (take (hi - lo) (drop lo s))
      else Inl SliceBoundsOutOfRange)"

text \<open>\<open>binary.BigEndian.Uint16(b)\<close> reads \<open>b[1]\<close> and \<open>b[0]\<close>.\<close>

definition Uint16 :: "byte list \<Rightarrow> go_panic + 16 word" where
  "Uint16 b =
     (if length b < 2 then Inl IndexOutOfRange
      else Inr ((ucast (b ! 1) :: 16 word) OR push_bit 8 (ucast (b ! 0) :: 16 word)))"

text \<open>\<open>int(binary.BigEndian.Uint16(data[lo:hi]))\<close>, as \<open>probe\<close> writes it twice.\<close>

definition intUint16 :: "byte list \<Rightarrow> nat \<Rightarrow> nat \<Rightarrow> go_panic + int" where
  "intUint16 data lo hi =
     (case goSlice data lo hi of
        Inl p \<Rightarrow> Inl p
      | Inr s \<Rightarrow> (case Uint16 s of Inl p \<Rightarrow> Inl p | Inr w \<Rightarrow> Inr (uint w)))"

section \<open>The probe\<close>

abbreviation (input) innerIPv4HeaderLen :: nat where "innerIPv4HeaderLen \<equiv> 20"
abbreviation (input) icmpEchoIDOffset :: nat where "icmpEchoIDOffset \<equiv> innerIPv4HeaderLen + 4"
abbreviation (input) icmpEchoIDLen :: nat where "icmpEchoIDLen \<equiv> 2"
abbreviation (input) icmpEchoSeqOffset :: nat where "icmpEchoSeqOffset \<equiv> icmpEchoIDOffset + icmpEchoIDLen"
abbreviation (input) icmpEchoSeqLen :: nat where "icmpEchoSeqLen \<equiv> 2"

text \<open>
  The \<open>switch responseMsg.Type\<close> of the wait loop. \<open>Accept t\<close>: the packet belongs to this
  probe and \<open>probe\<close> returns with type \<open>t\<close>; \<open>Ignore\<close>: the loop reads on; \<open>Abort p\<close>: the
  statement panics. \<open>Body.(*icmp.Echo)\<close> and \<open>Body.(*icmp.TimeExceeded)\<close> are type
  assertions, and \<open>&&\<close> evaluates its right operand only when the left one holds.
\<close>

datatype verdict = Accept ICMPType | Ignore | Abort go_panic

definition checkIncoming :: "int \<Rightarrow> int \<Rightarrow> Message \<Rightarrow> verdict" where
  "checkIncoming processIDKeep16 seqNum responseMsg =
     (if Type responseMsg = ICMPTypeEchoReply then
        (case Body responseMsg of
           Echo i s d \<Rightarrow>
             if i = processIDKeep16 \<and> s = seqNum then Accept ICMPTypeEchoReply else Ignore
         | _ \<Rightarrow> Abort TypeAssertionFailed)
      else if Type responseMsg = ICMPTypeTimeExceeded then
        (case Body responseMsg of
           TimeExceeded d \<Rightarrow>
             (case intUint16 d icmpEchoIDOffset (icmpEchoIDOffset + icmpEchoIDLen) of
                Inl p \<Rightarrow> Abort p
              | Inr i \<Rightarrow>
                  if i = processIDKeep16 then
                    (case intUint16 d icmpEchoSeqOffset (icmpEchoSeqOffset + icmpEchoSeqLen) of
                       Inl p \<Rightarrow> Abort p
                     | Inr s \<Rightarrow> if s = seqNum then Accept ICMPTypeTimeExceeded else Ignore)
                  else Ignore)
         | _ \<Rightarrow> Abort TypeAssertionFailed)
      else Ignore)"

text \<open>
  The wait loop \<open>for { ... }\<close> of \<open>probe\<close>, over the script of reads. \<open>parse\<close> stands for
  \<open>icmp.ParseMessage(ipv4.ICMPTypeEcho.Protocol(), \<cdot>)\<close> of the library
  \<open>golang.org/x/net/icmp\<close>; the buffer has 1500 bytes, so a longer datagram is cut. The
  result carries the reads that are left and the clock.
\<close>

fun waitLoop :: "(byte list \<Rightarrow> error + Message) \<Rightarrow> int \<Rightarrow> int \<Rightarrow> int \<Rightarrow> int
    \<Rightarrow> (int \<times> read_result) list \<Rightarrow> probe_result \<times> int \<times> (int \<times> read_result) list" where
  "waitLoop parse processIDKeep16 seqNum startTime now [] = (Failed ErrDeadlineExceeded, now, [])"
| "waitLoop parse processIDKeep16 seqNum startTime now ((t, ReadErr err) # rest) =
     (Failed err, t, rest)"
| "waitLoop parse processIDKeep16 seqNum startTime now ((t, ReadOK responseBytes responderAddr) # rest) =
     (let elapsedTime = Since t startTime in
      case parse (take 1500 responseBytes) of
        Inl err \<Rightarrow> waitLoop parse processIDKeep16 seqNum startTime t rest
      | Inr responseMsg \<Rightarrow>
          (case checkIncoming processIDKeep16 seqNum responseMsg of
             Accept ty \<Rightarrow> (Responded responderAddr elapsedTime ty, t, rest)
           | Abort p \<Rightarrow> (Panicked p, t, rest)
           | Ignore \<Rightarrow> waitLoop parse processIDKeep16 seqNum startTime t rest))"

definition waitForResponse :: "(byte list \<Rightarrow> error + Message) \<Rightarrow> int \<Rightarrow> int \<Rightarrow> int
    \<Rightarrow> Conn \<Rightarrow> probe_result \<times> Conn" where
  "waitForResponse parse processIDKeep16 seqNum startTime conn =
     (case waitLoop parse processIDKeep16 seqNum startTime (clock conn) (inbox conn) of
        (r, now, rest) \<Rightarrow> (r, conn\<lparr>clock := now, inbox := rest\<rparr>))"

text \<open>The message \<open>probe\<close> builds: \<open>icmp.Message{Type: ..., Body: &icmp.Echo{...}}\<close>.\<close>

definition hello :: "byte list" where
  "hello = [0x68, 0x65, 0x6c, 0x6c, 0x6f]"

definition echoRequest :: "int \<Rightarrow> int \<Rightarrow> Message" where
  "echoRequest processIDKeep16 seqNum =
     \<lparr>Type = ICMPTypeEcho, Code = 0, Checksum = 0,
      Body = Echo processIDKeep16 seqNum hello\<rparr>"

text \<open>
  \<open>probe(conn, dstAddr, TTL, seqNum, waitTime)\<close>. \<open>marshal\<close> stands for
  \<open>(*icmp.Message).Marshal(nil)\<close> and \<open>parse\<close> for \<open>icmp.ParseMessage\<close>, both of the
  library; \<open>processID\<close> is the package variable set from \<open>os.Getpid()\<close>. The clock is read
  from the connection. The deadline is the clock plus \<open>time.Second * time.Duration(waitTime)\<close>,
  an \<open>int64\<close> product. The error results of \<open>SetTTL\<close> and of \<open>WriteTo\<close> are dropped, as
  the source drops them.
\<close>

definition probe :: "(Message \<Rightarrow> error + byte list) \<Rightarrow> (byte list \<Rightarrow> error + Message) \<Rightarrow> int
    \<Rightarrow> Conn \<Rightarrow> Addr \<Rightarrow> int \<Rightarrow> int \<Rightarrow> int \<Rightarrow> probe_result \<times> Conn" where
  "probe marshal parse processID conn dstAddr TTL seqNum waitTime =
     (let startTime = clock conn;
          t = clock conn + int64 (1000000000 * waitTime)
      in case SetReadDeadline conn t of
           (Some err, conn1) \<Rightarrow> (Failed err, conn1)
         | (None, conn1) \<Rightarrow>
             (let icmpEchoIDMask = 0xffff;
                  processIDKeep16 = processID AND icmpEchoIDMask;
                  msg = echoRequest processIDKeep16 seqNum;
                  conn2 = snd (SetTTL conn1 TTL)
              in case marshal msg of
                   Inl err \<Rightarrow> (Failed err, conn2)
                 | Inr msgBytes \<Rightarrow>
                     (let conn3 = snd (WriteTo conn2 msgBytes dstAddr)
                      in waitForResponse parse processIDKeep16 seqNum startTime conn3)))"

section \<open>The ICMP library\<close>

text \<open>
  Modelled from the spec: \<open>(*icmp.Message).Marshal\<close> and \<open>icmp.ParseMessage\<close> belong to
  the library \<open>golang.org/x/net/icmp\<close>, which is not part of the repository. \<open>Marshal\<close> is
  the spec's Encode: type, code, the checksum of the ICMP wire format computed over the
  full message, identifier, sequence and payload, identifier and sequence as big-endian
  16-bit fields. \<open>ParseMessage\<close> is the spec's Decode: an Echo Reply gives identifier and
  sequence from the ICMP header, a Time Exceeded gives as \<open>Data\<close> what follows the eight
  bytes of the outer ICMP header, and input below the minimum header size is an error. For
  every other type \<open>probe\<close> drops the datagram whether the library reports an error or a
  body, so the model returns the raw body.
\<close>

definition PutUint16 :: "16 word \<Rightarrow> byte list" where
  "PutUint16 v = [ucast (drop_bit 8 v), ucast v]"

fun sum16 :: "byte list \<Rightarrow> 32 word \<Rightarrow> 32 word" where
  "sum16 (b0 # b1 # bs) s = sum16 bs (s + (push_bit 8 (ucast b1) OR ucast b0))"
| "sum16 [b0] s = s + ucast b0"
| "sum16 [] s = s"

definition checksum :: "byte list \<Rightarrow> 16 word" where
  "checksum b =
     (let s = sum16 b 0;
          s1 = drop_bit 16 s + (s AND 0xffff);
          s2 = s1 + drop_bit 16 s1
      in NOT (ucast s2))"

definition marshalBody :: "MessageBody \<Rightarrow> byte list" where
  "marshalBody body =
     (case body of
        Echo i s d \<Rightarrow> PutUint16 (word_of_int i) @ PutUint16 (word_of_int s) @ d
      | TimeExceeded d \<Rightarrow> [0, 0, 0, 0] @ d
      | RawBody d \<Rightarrow> d)"

definition Marshal :: "Message \<Rightarrow> error + byte list" where
  "Marshal m =
     (let b = [word_of_int (Type m), word_of_int (Code m), 0, 0] @ marshalBody (Body m);
          s = checksum b
      in Inr (b[2 := b ! 2 XOR ucast s, 3 := b ! 3 XOR ucast (drop_bit 8 s)]))"

definition errMessageTooShort :: error where
  "errMessageTooShort = ErrOther ''message too short''"

definition be16 :: "byte \<Rightarrow> byte \<Rightarrow> int" where
  "be16 hi lo = uint ((ucast lo :: 16 word) OR push_bit 8 (ucast hi :: 16 word))"

definition ParseMessage :: "byte list \<Rightarrow> error + Message" where
  "ParseMessage b =
     (if length b < 4 then Inl errMessageTooShort
      else
        (let ty = uint (b ! 0);
             code = uint (b ! 1);
             csum = be16 (b ! 2) (b ! 3);
             body = drop 4 b
         in if ty = ICMPTypeEchoReply \<or> ty = ICMPTypeEcho then
              (if length body < 4 then Inl errMessageTooShort
               else Inr \<lparr>Type = ty, Code = code, Checksum = csum,
                         Body = Echo (be16 (body ! 0) (body ! 1)) (be16 (body ! 2) (body ! 3))
                                  (drop 4 body)\<rparr>)
            else if ty = ICMPTypeTimeExceeded then
              (if length body < 4 then Inl errMessageTooShort
               else Inr \<lparr>Type = ty, Code = code, Checksum = csum,
                         Body = TimeExceeded (drop 4 body)\<rparr>)
            else Inr \<lparr>Type = ty, Code = code, Checksum = csum, Body = RawBody body\<rparr>))"

section \<open>The driver\<close>

text \<open>
  The two loops of \<open>main\<close>. The run state holds the connection and \<open>probeCounter\<close>, the
  lines printed, and a log of the calls of \<open>probe\<close>: TTL, sequence number and result. The
  reverse DNS lookup only changes the name shown on a line and is left out.
\<close>

datatype line = HopHeader int | Star | Hop Addr int

record Run =
  conn :: Conn
  probeCounter :: int
  issued :: "(int \<times> int \<times> probe_result) list"
  printed :: "line list"

text \<open>How the process ends: \<open>os.Exit(0)\<close> after a hop that saw an Echo Reply, the return
  of \<open>main\<close> after the last TTL, or a panic.\<close>

datatype run_end = Reached int | Exhausted | Crashed go_panic

text \<open>\<open>for range queries\<close>, with \<open>n\<close> iterations to go and the flag \<open>reachedDestination\<close>.\<close>

fun hopLoop :: "(Message \<Rightarrow> error + byte list) \<Rightarrow> (byte list \<Rightarrow> error + Message) \<Rightarrow> int
    \<Rightarrow> Addr \<Rightarrow> int \<Rightarrow> nat \<Rightarrow> int \<Rightarrow> bool \<Rightarrow> Run \<Rightarrow> (go_panic + bool) \<times> Run" where
  "hopLoop marshal parse processID dstAddr wait 0 TTL reachedDestination st =
     (Inr reachedDestination, st)"
| "hopLoop marshal parse processID dstAddr wait (Suc n) TTL reachedDestination st =
     (case probe marshal parse processID (conn st) dstAddr TTL (probeCounter st) wait of
        (Panicked p, conn') \<Rightarrow>
          (Inl p, st\<lparr>conn := conn',
                     issued := issued st @ [(TTL, probeCounter st, Panicked p)]\<rparr>)
      | (Failed err, conn') \<Rightarrow>
          hopLoop marshal parse processID dstAddr wait n TTL reachedDestination
            (st\<lparr>conn := conn', probeCounter := probeCounter st + 1,
                issued := issued st @ [(TTL, probeCounter st, Failed err)],
                printed := printed st @ [Star]\<rparr>)
      | (Responded responderAddr elapsedTime msgType, conn') \<Rightarrow>
          (let st' = st\<lparr>conn := conn', probeCounter := probeCounter st + 1,
                        issued := issued st @
                          [(TTL, probeCounter st, Responded responderAddr elapsedTime msgType)]\<rparr>
           in if msgType = ICMPTypeEchoReply then
                hopLoop marshal parse processID dstAddr wait n TTL True
                  (st'\<lparr>printed := printed st' @ [Hop responderAddr elapsedTime]\<rparr>)
              else if msgType = ICMPTypeTimeExceeded then
                hopLoop marshal parse processID dstAddr wait n TTL reachedDestination
                  (st'\<lparr>printed := printed st' @ [Hop responderAddr elapsedTime]\<rparr>)
              else hopLoop marshal parse processID dstAddr wait n TTL reachedDestination st'))"

text \<open>\<open>for TTL := 1; TTL <= maxTTL; TTL++\<close>. A negative \<open>queries\<close> gives no iteration of
  the inner loop, as \<open>for range\<close> does.\<close>

function ttlLoop :: "(Message \<Rightarrow> error + byte list) \<Rightarrow> (byte list \<Rightarrow> error + Message) \<Rightarrow> int
    \<Rightarrow> Addr \<Rightarrow> int \<Rightarrow> int \<Rightarrow> int \<Rightarrow> int \<Rightarrow> Run \<Rightarrow> run_end \<times> Run" where
  "ttlLoop marshal parse processID dstAddr wait queries maxTTL TTL st =
     (if TTL \<le> maxTTL then
        (case hopLoop marshal parse processID dstAddr wait (nat queries) TTL False
                (st\<lparr>printed := printed st @ [HopHeader TTL]\<rparr>) of
           (Inl p, st') \<Rightarrow> (Crashed p, st')
         | (Inr True, st') \<Rightarrow> (Reached TTL, st')
         | (Inr False, st') \<Rightarrow>
             ttlLoop marshal parse processID dstAddr wait queries maxTTL (TTL + 1) st')
      else (Exhausted, st))"
  by pat_completeness auto
termination
  by (relation "measure (\<lambda>(marshal, parse, processID, dstAddr, wait, queries, maxTTL, TTL, st).
        nat (maxTTL + 1 - TTL))") auto

declare ttlLoop.simps [simp del]

text \<open>\<open>main\<close> after the flags are parsed, the destination is resolved and the socket is
  open: \<open>probeCounter := 1\<close> and the loop from TTL 1.\<close>

definition main :: "(Message \<Rightarrow> error + byte list) \<Rightarrow> (byte list \<Rightarrow> error + Message) \<Rightarrow> int
    \<Rightarrow> Addr \<Rightarrow> int \<Rightarrow> int \<Rightarrow> int \<Rightarrow> Conn \<Rightarrow> run_end \<times> Run" where
  "main marshal parse processID dstAddr wait queries maxTTL c =
     ttlLoop marshal parse processID dstAddr wait queries maxTTL 1
       \<lparr>conn = c, probeCounter = 1, issued = [], printed = []\<rparr>"



section \<open>The matching rule in the words of the specification\<close>

text \<open>
  The embedded identity of a Time-Exceeded payload: identifier and sequence number are the
  big-endian 16-bit integers at bytes 24-25 and 26-27, behind an inner IPv4 header of 20
  bytes and the first four bytes of the inner ICMP header.
\<close>

definition embeddedIdentity :: "byte list \<Rightarrow> int \<times> int" where
  "embeddedIdentity d =
     (256 * uint (d ! 24) + uint (d ! 25), 256 * uint (d ! 26) + uint (d ! 27))"

text \<open>
  A decoded Echo Reply matches when its echo identity is the awaited one, a decoded Time
  Exceeded when its embedded identity is. \<open>matching\<close> gives the type of a datagram that
  matches; \<open>foreign\<close> holds of the datagrams that do not belong to the probe: bytes that do
  not parse, messages of another type, Echo Replies with another identity and Time-Exceeded
  messages that carry another embedded identity.
\<close>

definition matching :: "int \<Rightarrow> int \<Rightarrow> error + Message \<Rightarrow> ICMPType option" where
  "matching runToken seqNum r =
     (case r of
        Inl err \<Rightarrow> None
      | Inr m \<Rightarrow>
          (case Body m of
             Echo i s d \<Rightarrow>
               if Type m = ICMPTypeEchoReply \<and> (i, s) = (runToken, seqNum)
               then Some ICMPTypeEchoReply else None
           | TimeExceeded d \<Rightarrow>
               if Type m = ICMPTypeTimeExceeded \<and> 28 \<le> length d
                  \<and> embeddedIdentity d = (runToken, seqNum)
               then Some ICMPTypeTimeExceeded else None
           | RawBody d \<Rightarrow> None))"

definition foreign :: "int \<Rightarrow> int \<Rightarrow> error + Message \<Rightarrow> bool" where
  "foreign runToken seqNum r =
     (case r of
        Inl err \<Rightarrow> True
      | Inr m \<Rightarrow>
          (case Body m of
             Echo i s d \<Rightarrow>
               Type m \<noteq> ICMPTypeTimeExceeded
               \<and> (if Type m = ICMPTypeEchoReply then (i, s) \<noteq> (runToken, seqNum) else True)
           | TimeExceeded d \<Rightarrow>
               Type m \<noteq> ICMPTypeEchoReply
               \<and> (if Type m = ICMPTypeTimeExceeded
                   then 28 \<le> length d \<and> embeddedIdentity d \<noteq> (runToken, seqNum) else True)
           | RawBody d \<Rightarrow> Type m \<noteq> ICMPTypeEchoReply \<and> Type m \<noteq> ICMPTypeTimeExceeded))"

text \<open>A datagram that arrives: the clock reading, the bytes and the sender.\<close>

type_synonym datagram = "int \<times> byte list \<times> Addr"

definition arrive :: "datagram \<Rightarrow> int \<times> read_result" where
  "arrive d = (case d of (t, b, a) \<Rightarrow> (t, ReadOK b a))"

section \<open>Concrete inputs\<close>

text \<open>A fresh connection, and datagrams for a probe with run token \<open>0x1234\<close>.\<close>

definition conn0 :: Conn where
  "conn0 = \<lparr>clock = 0, readDeadline = None, ttl = 64, setDeadlineErr = None, writeErr = None,
     sent = [], inbox = []\<rparr>"

text \<open>An Echo Reply or a Time Exceeded for identifier \<open>0x1234\<close> and sequence number \<open>n\<close>
  below 256; a Time Exceeded that carries no payload at all.\<close>

definition echoReplyFor :: "byte \<Rightarrow> byte list" where
  "echoReplyFor n = [0, 0, 0, 0, 0x12, 0x34, 0, n, 0x68, 0x65, 0x6c, 0x6c, 0x6f]"

definition timeExceededFor :: "byte \<Rightarrow> byte list" where
  "timeExceededFor n =
     [11, 0, 0, 0, 0, 0, 0, 0,
      0x45, 0, 0, 33, 0, 0, 0, 0, 1, 1, 0, 0, 10, 0, 0, 1, 192, 0, 2, 1,
      8, 0, 0, 0, 0x12, 0x34, 0, n]"

definition shortTimeExceeded :: "byte list" where
  "shortTimeExceeded = [11, 0, 0xf4, 0xff, 0, 0, 0, 0]"

text \<open>Two networks for a run with three probes per hop. On the first the probes of hop 1
  are answered by a router and then a Time Exceeded without payload arrives; on the second
  the destination answers the first probe and then such a Time Exceeded arrives.\<close>

definition crashAtHop2 :: Conn where
  "crashAtHop2 = conn0\<lparr>inbox :=
     [(10, ReadOK (timeExceededFor 1) ''10.0.0.1''),
      (20, ReadOK (timeExceededFor 2) ''10.0.0.1''),
      (30, ReadOK (timeExceededFor 3) ''10.0.0.1''),
      (40, ReadOK shortTimeExceeded ''10.0.0.9'')]\<rparr>"

definition crashAfterReply :: Conn where
  "crashAfterReply = conn0\<lparr>inbox :=
     [(10, ReadOK (echoReplyFor 1) ''192.0.2.1''),
      (20, ReadOK shortTimeExceeded ''10.0.0.9'')]\<rparr>"

text \<open>The Echo Request for identifier \<open>0x1234\<close> and sequence number 3 on the wire.\<close>

definition echoRequestBytes :: "byte list" where
  "echoRequestBytes = [8, 0, 0xa1, 0xf6, 0x12, 0x34, 0, 3, 0x68, 0x65, 0x6c, 0x6c, 0x6f]"

section \<open>The checksum over the natural numbers\<close>

text \<open>
  The sum of the little-endian 16-bit words of a message and the folding of its carries,
  without the 32-bit accumulator: \<open>checksum\<close> is the complement of \<open>fold16 (natsum b)\<close>
  for every message short enough for the accumulator not to wrap.
\<close>

definition fold16 :: "nat \<Rightarrow> nat" where
  "fold16 t = (let f1 = t div 65536 + t mod 65536 in (f1 + f1 div 65536) mod 65536)"

fun natsum :: "byte list \<Rightarrow> nat" where
  "natsum (b0 # b1 # bs) = 256 * unat b1 + unat b0 + natsum bs"
| "natsum [b0] = unat b0"
| "natsum [] = 0"

section \<open>Big-endian fields and the check of a datagram\<close>

lemma or_is_add: "(ucast (lo :: byte) :: 16 word) OR push_bit 8 (ucast (hi :: byte) :: 16 word) = ucast lo + push_bit 8 (ucast hi)"
  by (rule disjunctive_add[symmetric]) (auto simp: bit_simps dest: bit_imp_le_length)

lemma uint_be: "uint ((ucast (lo :: byte) :: 16 word) OR push_bit 8 (ucast (hi :: byte) :: 16 word)) = 256 * uint hi + uint lo"
proof -
  have lo: "uint lo < 256" and hi: "uint hi < 256"
    using uint_bounded [of lo] uint_bounded [of hi] by simp_all
  have "uint (ucast lo + push_bit 8 (ucast hi) :: 16 word) = (uint lo + 256 * uint hi) mod 65536"
    by (simp add: uint_word_ariths uint_up_ucast is_up push_bit_eq_mult) (simp add: mod_simps ac_simps)
  then show ?thesis using lo hi by (simp add: or_is_add)
qed

lemma intUint16_ok:
  "k + 2 \<le> length d \<Longrightarrow> intUint16 d k (k + 2) = Inr (256 * uint (d ! k) + uint (d ! Suc k))"
  by (simp add: intUint16_def goSlice_def Uint16_def uint_be)

lemma intUint16_short:
  "length d < hi \<Longrightarrow> intUint16 d lo hi = Inl SliceBoundsOutOfRange"
  by (simp add: intUint16_def goSlice_def)

lemma intUint16_id:
  "26 \<le> length d \<Longrightarrow> intUint16 d 24 26 = Inr (256 * uint (d ! 24) + uint (d ! 25))"
  using intUint16_ok [of 24 d] by simp

lemma intUint16_seq:
  "28 \<le> length d \<Longrightarrow> intUint16 d 26 28 = Inr (256 * uint (d ! 26) + uint (d ! 27))"
  using intUint16_ok [of 26 d] by simp

lemma checkIncoming_TimeExceeded:
  assumes "Type m = ICMPTypeTimeExceeded" and "Body m = TimeExceeded d" and "28 \<le> length d"
  shows "checkIncoming pid seqNum m
         = (if embeddedIdentity d = (pid, seqNum) then Accept ICMPTypeTimeExceeded else Ignore)"
proof -
  have a: "intUint16 d 24 26 = Inr (fst (embeddedIdentity d))"
    using assms(3) by (simp add: intUint16_id embeddedIdentity_def)
  have b: "intUint16 d 26 28 = Inr (snd (embeddedIdentity d))"
    using assms(3) by (simp add: intUint16_seq embeddedIdentity_def)
  show ?thesis
    using a b assms(1,2) by (auto simp: checkIncoming_def prod_eq_iff)
qed

lemma checkIncoming_short:
  assumes "Type m = ICMPTypeTimeExceeded" and "Body m = TimeExceeded d" and "length d < 26"
  shows "checkIncoming pid seqNum m = Abort SliceBoundsOutOfRange"
  using assms by (simp add: checkIncoming_def intUint16_short)

lemma checkIncoming_matching:
  assumes "matching pid seqNum (Inr m) = Some ty"
  shows "checkIncoming pid seqNum m = Accept ty"
proof (cases "Body m")
  case (Echo i s d)
  then show ?thesis using assms by (auto simp: matching_def checkIncoming_def split: if_splits)
next
  case (TimeExceeded d)
  then show ?thesis using assms checkIncoming_TimeExceeded [of m d pid seqNum]
    by (auto simp: matching_def split: if_splits)
next
  case (RawBody d)
  then show ?thesis using assms by (simp add: matching_def)
qed

lemma checkIncoming_foreign:
  assumes "foreign pid seqNum (Inr m)"
  shows "checkIncoming pid seqNum m = Ignore"
proof (cases "Body m")
  case (Echo i s d)
  then show ?thesis using assms by (auto simp: foreign_def checkIncoming_def split: if_splits)
next
  case (TimeExceeded d)
  then show ?thesis using assms checkIncoming_TimeExceeded [of m d pid seqNum]
    by (auto simp: foreign_def checkIncoming_def split: if_splits)
next
  case (RawBody d)
  then show ?thesis using assms by (auto simp: foreign_def checkIncoming_def)
qed

section \<open>The wait loop\<close>

lemma waitLoop_skip:
  assumes "\<forall>(t, b, a) \<in> set pre. foreign pid seqNum (parse (take 1500 b))"
  shows "waitLoop parse pid seqNum start now (map arrive pre @ rest)
         = waitLoop parse pid seqNum start (if pre = [] then now else fst (last pre)) rest"
  using assms
proof (induction pre arbitrary: now)
  case Nil
  then show ?case by simp
next
  case (Cons d pre)
  obtain t b a where d: "d = (t, b, a)" by (cases d)
  from Cons.prems d have f: "foreign pid seqNum (parse (take 1500 b))" by simp
  have step: "waitLoop parse pid seqNum start now (arrive d # (map arrive pre @ rest))
        = waitLoop parse pid seqNum start t (map arrive pre @ rest)"
  proof (cases "parse (take 1500 b)")
    case (Inl e)
    then show ?thesis by (simp add: d arrive_def)
  next
    case (Inr m)
    with f have "checkIncoming pid seqNum m = Ignore" by (simp add: checkIncoming_foreign)
    with Inr show ?thesis by (simp add: d arrive_def)
  qed
  from Cons.prems have "\<forall>(t, b, a) \<in> set pre. foreign pid seqNum (parse (take 1500 b))" by simp
  from Cons.IH [OF this, of t] step show ?case by (simp add: d)
qed


lemma waitLoop_first_match:
  assumes "\<forall>(t, b, a) \<in> set pre. foreign pid seqNum (parse (take 1500 b))"
      and "matching pid seqNum (parse (take 1500 b)) = Some ty"
  shows "waitLoop parse pid seqNum start now (map arrive pre @ arrive (t, b, a) # rest)
         = (Responded a (Since t start) ty, t, rest)"
proof -
  obtain m where m: "parse (take 1500 b) = Inr m"
    using assms(2) by (cases "parse (take 1500 b)") (simp_all add: matching_def)
  with assms(2) have "checkIncoming pid seqNum m = Accept ty"
    by (simp add: checkIncoming_matching)
  with m have "waitLoop parse pid seqNum start now' (arrive (t, b, a) # rest)
      = (Responded a (Since t start) ty, t, rest)" for now'
    by (simp add: arrive_def)
  with waitLoop_skip [OF assms(1)] show ?thesis by simp
qed

lemma waitLoop_read_error:
  assumes "\<forall>(t, b, a) \<in> set pre. foreign pid seqNum (parse (take 1500 b))"
  shows "waitLoop parse pid seqNum start now (map arrive pre @ (t, ReadErr err) # rest)
         = (Failed err, t, rest)"
  using waitLoop_skip [OF assms] by simp

lemma waitLoop_exhausted:
  assumes "\<forall>(t, b, a) \<in> set pre. foreign pid seqNum (parse (take 1500 b))"
  shows "fst (waitLoop parse pid seqNum start now (map arrive pre)) = Failed ErrDeadlineExceeded"
  using waitLoop_skip [OF assms, where rest = "[]"] by simp

lemma waitLoop_Failed:
  "fst (waitLoop parse pid seqNum start now rs) = Failed err \<Longrightarrow>
     err = ErrDeadlineExceeded \<or> (\<exists>t. (t, ReadErr err) \<in> set rs)"
proof (induction parse pid seqNum start now rs rule: waitLoop.induct)
  case (1 parse pid seqNum start now)
  then show ?case by simp
next
  case (2 parse pid seqNum start now t e rest)
  then show ?case by auto
next
  case (3 parse pid seqNum start now t b a rest)
  then show ?case
    by (auto simp: Let_def split: sum.splits verdict.splits)
qed

text \<open>The wait changes the clock and the script of reads, and nothing else of the
  connection: not the deadline, not the TTL, not what was sent.\<close>

lemma waitForResponse_fst:
  "fst (waitForResponse parse pid seqNum start c)
   = fst (waitLoop parse pid seqNum start (clock c) (inbox c))"
  by (simp add: waitForResponse_def split: prod.splits)

lemma waitForResponse_conn:
  "readDeadline (snd (waitForResponse parse pid seqNum start c)) = readDeadline c
   \<and> ttl (snd (waitForResponse parse pid seqNum start c)) = ttl c
   \<and> sent (snd (waitForResponse parse pid seqNum start c)) = sent c
   \<and> setDeadlineErr (snd (waitForResponse parse pid seqNum start c)) = setDeadlineErr c
   \<and> writeErr (snd (waitForResponse parse pid seqNum start c)) = writeErr c
   \<and> inbox (snd (waitForResponse parse pid seqNum start c))
       = snd (snd (waitLoop parse pid seqNum start (clock c) (inbox c)))"
  by (simp add: waitForResponse_def split: prod.splits)

lemma SetTTL_conn:
  "clock (snd (SetTTL c TTL)) = clock c \<and> inbox (snd (SetTTL c TTL)) = inbox c
   \<and> sent (snd (SetTTL c TTL)) = sent c \<and> writeErr (snd (SetTTL c TTL)) = writeErr c
   \<and> setDeadlineErr (snd (SetTTL c TTL)) = setDeadlineErr c
   \<and> readDeadline (snd (SetTTL c TTL)) = readDeadline c
   \<and> ttl (snd (SetTTL c TTL)) = (if 1 \<le> TTL \<and> TTL \<le> 255 then TTL else ttl c)"
  by (simp add: SetTTL_def)

lemma WriteTo_conn:
  "clock (snd (WriteTo c b dst)) = clock c \<and> inbox (snd (WriteTo c b dst)) = inbox c
   \<and> writeErr (snd (WriteTo c b dst)) = writeErr c
   \<and> setDeadlineErr (snd (WriteTo c b dst)) = setDeadlineErr c
   \<and> readDeadline (snd (WriteTo c b dst)) = readDeadline c
   \<and> ttl (snd (WriteTo c b dst)) = ttl c
   \<and> sent (snd (WriteTo c b dst))
       = (case writeErr c of None \<Rightarrow> sent c @ [(ttl c, dst, b)] | Some err \<Rightarrow> sent c)"
  by (simp add: WriteTo_def split: option.splits)

lemma probe_sends:
  assumes "setDeadlineErr c = None"
      and "marshal (echoRequest (processID AND 0xffff) seqNum) = Inr msgBytes"
  shows "probe marshal parse processID c dstAddr TTL seqNum waitTime
         = waitForResponse parse (processID AND 0xffff) seqNum (clock c)
             (snd (WriteTo
                (snd (SetTTL (c\<lparr>readDeadline := Some (clock c + int64 (1000000000 * waitTime))\<rparr>) TTL))
                msgBytes dstAddr))"
  using assms by (simp add: probe_def SetReadDeadline_def Let_def)

lemma probe_fst:
  assumes "setDeadlineErr c = None"
      and "marshal (echoRequest (processID AND 0xffff) seqNum) = Inr msgBytes"
  shows "fst (probe marshal parse processID c dstAddr TTL seqNum waitTime)
         = fst (waitLoop parse (processID AND 0xffff) seqNum (clock c) (clock c) (inbox c))"
  by (simp add: probe_sends [where marshal = marshal and processID = processID, OF assms]
      waitForResponse_fst WriteTo_conn SetTTL_conn)

lemma probe_inbox:
  assumes "setDeadlineErr c = None"
      and "marshal (echoRequest (processID AND 0xffff) seqNum) = Inr msgBytes"
  shows "inbox (snd (probe marshal parse processID c dstAddr TTL seqNum waitTime))
         = snd (snd (waitLoop parse (processID AND 0xffff) seqNum (clock c) (clock c) (inbox c)))"
  by (simp add: probe_sends [where marshal = marshal and processID = processID, OF assms]
      waitForResponse_conn WriteTo_conn SetTTL_conn)

lemma probe_sent:
  assumes "setDeadlineErr c = None"
      and "marshal (echoRequest (processID AND 0xffff) seqNum) = Inr msgBytes"
  shows "sent (snd (probe marshal parse processID c dstAddr TTL seqNum waitTime))
         = (case writeErr c of
              None \<Rightarrow> sent c @ [(if 1 \<le> TTL \<and> TTL \<le> 255 then TTL else ttl c, dstAddr, msgBytes)]
            | Some err \<Rightarrow> sent c)"
  by (simp add: probe_sends [where marshal = marshal and processID = processID, OF assms]
      waitForResponse_conn WriteTo_conn SetTTL_conn split: option.splits)

lemma probe_marshal_error:
  assumes "setDeadlineErr c = None"
      and "marshal (echoRequest (processID AND 0xffff) seqNum) = Inl e"
  shows "fst (probe marshal parse processID c dstAddr TTL seqNum waitTime) = Failed e
       \<and> sent (snd (probe marshal parse processID c dstAddr TTL seqNum waitTime)) = sent c
       \<and> inbox (snd (probe marshal parse processID c dstAddr TTL seqNum waitTime)) = inbox c"
  using assms by (simp add: probe_def SetReadDeadline_def Let_def SetTTL_conn)

section \<open>Claims about the probe\<close>

text \<open>
  C1. The claim: a datagram that parses as a Time Exceeded whose payload is shorter than 28
  bytes is dropped by the wait loop, which keeps listening. The code cuts \<open>Data[24:26]\<close>
  without looking at the length of \<open>Data\<close>: on a Time Exceeded that carries no payload the
  slice expression panics, \<open>probe\<close> does not return and the run ends with the panic.
\<close>

theorem probe_panics_on_short_time_exceeded:
  "fst (probe Marshal ParseMessage 0x1234 (conn0\<lparr>inbox := [(5, ReadOK shortTimeExceeded ''10.0.0.9'')]\<rparr>)
          ''192.0.2.1'' 1 1 5) = Panicked SliceBoundsOutOfRange
   \<and> fst (main Marshal ParseMessage 0x1234 ''192.0.2.1'' 5 3 64
          (conn0\<lparr>inbox := [(5, ReadOK shortTimeExceeded ''10.0.0.9'')]\<rparr>)) = Crashed SliceBoundsOutOfRange"
proof
  show "fst (probe Marshal ParseMessage 0x1234
          (conn0\<lparr>inbox := [(5, ReadOK shortTimeExceeded ''10.0.0.9'')]\<rparr>) ''192.0.2.1'' 1 1 5)
        = Panicked SliceBoundsOutOfRange"
    by (simp add: probe_def SetReadDeadline_def SetTTL_def WriteTo_def Marshal_def Since_def
        waitForResponse_def conn0_def ParseMessage_def checkIncoming_def intUint16_def goSlice_def
        Let_def echoRequest_def shortTimeExceeded_def)
  show "fst (main Marshal ParseMessage 0x1234 ''192.0.2.1'' 5 3 64
          (conn0\<lparr>inbox := [(5, ReadOK shortTimeExceeded ''10.0.0.9'')]\<rparr>))
        = Crashed SliceBoundsOutOfRange"
    by code_simp
qed

text \<open>
  C2. For every Time-Exceeded payload of at least 28 bytes (an inner IPv4 header of 20 bytes
  and the first 8 bytes of the inner ICMP header), the identifier the code compares is the
  big-endian 16-bit integer at bytes 24-25 and the sequence number the one at bytes 26-27;
  the datagram is accepted exactly when the two equal the awaited identity, whatever the
  other bytes are.
\<close>

theorem time_exceeded_identity_extraction:
  assumes "28 \<le> length d"
  shows "intUint16 d 24 26 = Inr (256 * uint (d ! 24) + uint (d ! 25))
       \<and> intUint16 d 26 28 = Inr (256 * uint (d ! 26) + uint (d ! 27))
       \<and> checkIncoming pid seqNum \<lparr>Type = ICMPTypeTimeExceeded, Code = c, Checksum = k, Body = TimeExceeded d\<rparr>
         = (if (256 * uint (d ! 24) + uint (d ! 25), 256 * uint (d ! 26) + uint (d ! 27)) = (pid, seqNum)
            then Accept ICMPTypeTimeExceeded else Ignore)"
  using assms checkIncoming_TimeExceeded [of "\<lparr>Type = ICMPTypeTimeExceeded, Code = c, Checksum = k, Body = TimeExceeded d\<rparr>" d pid seqNum]
  by (simp add: intUint16_id intUint16_seq embeddedIdentity_def)

theorem time_exceeded_identity_extraction_witness:
  "28 \<le> length (drop 8 (timeExceededFor 7))
   \<and> intUint16 (drop 8 (timeExceededFor 7)) 24 26 = Inr 0x1234
   \<and> intUint16 (drop 8 (timeExceededFor 7)) 26 28 = Inr 7
   \<and> checkIncoming 0x1234 7
        \<lparr>Type = ICMPTypeTimeExceeded, Code = 0, Checksum = 0, Body = TimeExceeded (drop 8 (timeExceededFor 7))\<rparr>
      = Accept ICMPTypeTimeExceeded"
proof -
  have len: "28 \<le> length (drop 8 (timeExceededFor 7))"
    by (simp add: timeExceededFor_def)
  show ?thesis
    using len time_exceeded_identity_extraction [OF len, where pid = "0x1234" and seqNum = 7 and c = 0 and k = 0]
    by (simp add: timeExceededFor_def)
qed

text \<open>
  C3. The claim: for every finite sequence of inbound datagrams the wait returns the outcome
  of the first datagram that matches, and every earlier datagram is discarded. The code
  does so while the earlier datagrams are bytes that do not parse, messages of other types,
  Echo Replies and Time-Exceeded messages that carry the 28 identity bytes
  (\<open>waitLoop_first_match\<close>), and it never touches the read deadline
  (\<open>waitForResponse_conn\<close>). It does not when an earlier datagram is a Time Exceeded too
  short to hold an identity: the slice expression panics, and the matching Echo Reply
  behind it is never read.
\<close>

theorem wait_panics_before_match:
  "matching 0x1234 3 (ParseMessage (take 1500 (echoReplyFor 3))) = Some ICMPTypeEchoReply
   \<and> waitForResponse ParseMessage 0x1234 3 0
        (conn0\<lparr>inbox := [(10, ReadOK shortTimeExceeded ''10.0.0.9''),
                          (20, ReadOK (echoReplyFor 3) ''192.0.2.1'')]\<rparr>)
      = (Panicked SliceBoundsOutOfRange,
         conn0\<lparr>clock := 10, inbox := [(20, ReadOK (echoReplyFor 3) ''192.0.2.1'')]\<rparr>)
   \<and> fst (probe Marshal ParseMessage 0x1234
        (conn0\<lparr>inbox := [(10, ReadOK shortTimeExceeded ''10.0.0.9''),
                          (20, ReadOK (echoReplyFor 3) ''192.0.2.1'')]\<rparr>) ''192.0.2.1'' 1 3 5)
      = Panicked SliceBoundsOutOfRange"
proof (intro conjI)
  show "matching 0x1234 3 (ParseMessage (take 1500 (echoReplyFor 3))) = Some ICMPTypeEchoReply"
    by (simp add: matching_def ParseMessage_def echoReplyFor_def be16_def)
  show "waitForResponse ParseMessage 0x1234 3 0
        (conn0\<lparr>inbox := [(10, ReadOK shortTimeExceeded ''10.0.0.9''),
                          (20, ReadOK (echoReplyFor 3) ''192.0.2.1'')]\<rparr>)
      = (Panicked SliceBoundsOutOfRange,
         conn0\<lparr>clock := 10, inbox := [(20, ReadOK (echoReplyFor 3) ''192.0.2.1'')]\<rparr>)"
    by (simp add: waitForResponse_def conn0_def ParseMessage_def checkIncoming_def intUint16_def
        goSlice_def Let_def shortTimeExceeded_def Since_def)
  show "fst (probe Marshal ParseMessage 0x1234
        (conn0\<lparr>inbox := [(10, ReadOK shortTimeExceeded ''10.0.0.9''),
                          (20, ReadOK (echoReplyFor 3) ''192.0.2.1'')]\<rparr>) ''192.0.2.1'' 1 3 5)
      = Panicked SliceBoundsOutOfRange"
    by (simp add: probe_def SetReadDeadline_def SetTTL_def WriteTo_def Marshal_def Since_def
        waitForResponse_def conn0_def ParseMessage_def checkIncoming_def intUint16_def goSlice_def
        Let_def echoRequest_def shortTimeExceeded_def)
qed

text \<open>
  C4. When the read fails before any datagram matched, \<open>probe\<close> returns the error of the
  read as it is: the deadline error when the deadline elapsed, the other error otherwise,
  so the caller can tell the two apart.
\<close>

theorem probe_returns_read_error:
  assumes "setDeadlineErr c = None"
      and "marshal (echoRequest (processID AND 0xffff) seqNum) = Inr msgBytes"
      and "\<forall>(t, b, a) \<in> set pre. foreign (processID AND 0xffff) seqNum (parse (take 1500 b))"
      and "inbox c = map arrive pre @ (t, ReadErr err) # rest"
  shows "fst (probe marshal parse processID c dstAddr TTL seqNum waitTime) = Failed err
       \<and> (fst (probe marshal parse processID c dstAddr TTL seqNum waitTime) = Failed ErrDeadlineExceeded
            \<longleftrightarrow> err = ErrDeadlineExceeded)"
  using waitLoop_read_error [OF assms(3)] assms(4)
  by (simp add: probe_fst [where marshal = marshal and processID = processID, OF assms(1,2)])

theorem probe_returns_read_error_witness:
  "setDeadlineErr (conn0\<lparr>inbox := [(10, ReadOK (echoReplyFor 9) ''192.0.2.1''), (50, ReadErr (ErrOther ''network is down''))]\<rparr>) = None
   \<and> Marshal (echoRequest (0x1234 AND 0xffff) 3) = Inr [8, 0, 0xa1, 0xf6, 0x12, 0x34, 0, 3, 0x68, 0x65, 0x6c, 0x6c, 0x6f]
   \<and> foreign (0x1234 AND 0xffff) 3 (ParseMessage (take 1500 (echoReplyFor 9)))
   \<and> fst (probe Marshal ParseMessage 0x1234
          (conn0\<lparr>inbox := [(10, ReadOK (echoReplyFor 9) ''192.0.2.1''), (50, ReadErr (ErrOther ''network is down''))]\<rparr>)
          ''192.0.2.1'' 1 3 5) = Failed (ErrOther ''network is down'')
   \<and> fst (probe Marshal ParseMessage 0x1234
          (conn0\<lparr>inbox := [(10, ReadOK (echoReplyFor 9) ''192.0.2.1''), (50, ReadErr (ErrOther ''network is down''))]\<rparr>)
          ''192.0.2.1'' 1 3 5) \<noteq> Failed ErrDeadlineExceeded"
proof -
  let ?c = "conn0\<lparr>inbox := [(10, ReadOK (echoReplyFor 9) ''192.0.2.1''), (50, ReadErr (ErrOther ''network is down''))]\<rparr>"
  have d: "setDeadlineErr ?c = None"
    by (simp add: conn0_def)
  have m: "Marshal (echoRequest (0x1234 AND 0xffff) 3) = Inr [8, 0, 0xa1, 0xf6, 0x12, 0x34, 0, 3, 0x68, 0x65, 0x6c, 0x6c, 0x6f]"
    by (simp add: Marshal_def echoRequest_def marshalBody_def PutUint16_def hello_def checksum_def Let_def)
  have f: "\<forall>(t, b, a) \<in> set [(10 :: int, echoReplyFor 9, ''192.0.2.1'')].
         foreign (0x1234 AND 0xffff) 3 (ParseMessage (take 1500 b))"
    by (simp add: foreign_def ParseMessage_def echoReplyFor_def be16_def)
  have i: "inbox ?c = map arrive [(10 :: int, echoReplyFor 9, ''192.0.2.1'')] @ (50, ReadErr (ErrOther ''network is down'')) # []"
    by (simp add: arrive_def)
  show ?thesis
    using d m f [simplified] probe_returns_read_error [where marshal = Marshal and processID = "0x1234" and parse = ParseMessage
        and dstAddr = "''192.0.2.1''" and TTL = 1 and waitTime = 5, OF d m f i]
    by simp
qed

text \<open>
  C10. The error result of \<open>conn.WriteTo\<close> is dropped. When the write fails, nothing is
  sent and \<open>probe\<close> goes on to wait on the socket: its result is the result of the wait on
  the reads of the connection, the same as if the write had succeeded, the reads the wait
  consumed are gone, and an error it returns is the deadline error or an error of a read.
\<close>

theorem probe_discards_write_error:
  assumes "setDeadlineErr c = None"
      and "marshal (echoRequest (processID AND 0xffff) seqNum) = Inr msgBytes"
      and "writeErr c = Some werr"
  shows "fst (probe marshal parse processID c dstAddr TTL seqNum waitTime)
         = fst (waitForResponse parse (processID AND 0xffff) seqNum (clock c) c)
       \<and> inbox (snd (probe marshal parse processID c dstAddr TTL seqNum waitTime))
         = inbox (snd (waitForResponse parse (processID AND 0xffff) seqNum (clock c) c))
       \<and> sent (snd (probe marshal parse processID c dstAddr TTL seqNum waitTime)) = sent c
       \<and> fst (probe marshal parse processID c dstAddr TTL seqNum waitTime)
         = fst (probe marshal parse processID (c\<lparr>writeErr := None\<rparr>) dstAddr TTL seqNum waitTime)
       \<and> (\<forall>e. fst (probe marshal parse processID c dstAddr TTL seqNum waitTime) = Failed e \<longrightarrow>
             e = ErrDeadlineExceeded \<or> (\<exists>t. (t, ReadErr e) \<in> set (inbox c)))"
proof -
  note f = probe_fst [where marshal = marshal and processID = processID, OF assms(1,2)]
  have a: "fst (probe marshal parse processID c dstAddr TTL seqNum waitTime)
         = fst (waitForResponse parse (processID AND 0xffff) seqNum (clock c) c)"
    by (simp add: f waitForResponse_fst)
  have i: "inbox (snd (probe marshal parse processID c dstAddr TTL seqNum waitTime))
         = inbox (snd (waitForResponse parse (processID AND 0xffff) seqNum (clock c) c))"
    by (simp add: probe_inbox [where marshal = marshal and processID = processID, OF assms(1,2)]
        waitForResponse_conn)
  have b: "sent (snd (probe marshal parse processID c dstAddr TTL seqNum waitTime)) = sent c"
    using assms(3)
    by (simp add: probe_sent [where marshal = marshal and processID = processID, OF assms(1,2)])
  have c: "fst (probe marshal parse processID c dstAddr TTL seqNum waitTime)
         = fst (probe marshal parse processID (c\<lparr>writeErr := None\<rparr>) dstAddr TTL seqNum waitTime)"
    using assms(1,2)
    by (simp add: f probe_fst [where c = "c\<lparr>writeErr := None\<rparr>" and marshal = marshal
          and processID = processID and msgBytes = msgBytes])
  have d: "e = ErrDeadlineExceeded \<or> (\<exists>t. (t, ReadErr e) \<in> set (inbox c))"
    if "fst (probe marshal parse processID c dstAddr TTL seqNum waitTime) = Failed e" for e
    using that waitLoop_Failed [of parse "processID AND 0xffff" seqNum "clock c" "clock c" "inbox c" e]
    by (simp add: f)
  from a i b c d show ?thesis by blast
qed

theorem probe_discards_write_error_witness:
  "setDeadlineErr (conn0\<lparr>writeErr := Some (ErrOther ''network is unreachable'')\<rparr>) = None
   \<and> Marshal (echoRequest (0x1234 AND 0xffff) 3)
       = Inr [8, 0, 0xa1, 0xf6, 0x12, 0x34, 0, 3, 0x68, 0x65, 0x6c, 0x6c, 0x6f]
   \<and> writeErr (conn0\<lparr>writeErr := Some (ErrOther ''network is unreachable'')\<rparr>)
       = Some (ErrOther ''network is unreachable'')
   \<and> fst (probe Marshal ParseMessage 0x1234 (conn0\<lparr>writeErr := Some (ErrOther ''network is unreachable'')\<rparr>)
        ''192.0.2.1'' 1 3 5) = Failed ErrDeadlineExceeded
   \<and> sent (snd (probe Marshal ParseMessage 0x1234
        (conn0\<lparr>writeErr := Some (ErrOther ''network is unreachable'')\<rparr>) ''192.0.2.1'' 1 3 5)) = []"
proof -
  let ?c = "conn0\<lparr>writeErr := Some (ErrOther ''network is unreachable'')\<rparr>"
  have d: "setDeadlineErr ?c = None"
    by (simp add: conn0_def)
  have m: "Marshal (echoRequest (0x1234 AND 0xffff) 3)
             = Inr [8, 0, 0xa1, 0xf6, 0x12, 0x34, 0, 3, 0x68, 0x65, 0x6c, 0x6c, 0x6f]"
    by (simp add: Marshal_def echoRequest_def marshalBody_def PutUint16_def hello_def
        checksum_def Let_def)
  have w: "writeErr ?c = Some (ErrOther ''network is unreachable'')"
    by simp
  note t = probe_discards_write_error [where marshal = Marshal and processID = "0x1234"
        and parse = ParseMessage and dstAddr = "''192.0.2.1''" and TTL = 1 and waitTime = 5, OF d m w]
  have r: "fst (probe Marshal ParseMessage 0x1234 ?c ''192.0.2.1'' 1 3 5)
      = fst (waitForResponse ParseMessage (0x1234 AND 0xffff) 3 (clock ?c) ?c)"
    using t by blast
  have s: "sent (snd (probe Marshal ParseMessage 0x1234 ?c ''192.0.2.1'' 1 3 5)) = sent ?c"
    using t by blast
  have e: "fst (waitForResponse ParseMessage (0x1234 AND 0xffff) 3 (clock ?c) ?c)
        = Failed ErrDeadlineExceeded"
    by (simp add: waitForResponse_def conn0_def)
  have s0: "sent ?c = []"
    by (simp add: conn0_def)
  from d m w r e s s0 show ?thesis
    by (simp only: simp_thms)
qed

section \<open>Claims about the encoding\<close>

lemma fold16_cases:
  assumes "t < 4294967296"
  shows "fold16 t = (if t div 65536 + t mod 65536 < 65536 then t div 65536 + t mod 65536
                     else t div 65536 + t mod 65536 - 65535)"
proof -
  define f1 where "f1 = t div 65536 + t mod 65536"
  have "t div 65536 < 65536" using assms by simp
  moreover have "t mod 65536 < 65536" by simp
  ultimately have b: "f1 < 131071" unfolding f1_def by linarith
  have "(f1 + f1 div 65536) mod 65536 = (if f1 < 65536 then f1 else f1 - 65535)"
  proof (cases "f1 < 65536")
    case True
    then show ?thesis by simp
  next
    case False
    with b have d: "f1 div 65536 = 1"
      by (intro div_nat_eqI) simp_all
    have "(f1 + 1) mod 65536 = (f1 + 1 - 65536) mod 65536"
      using False by (simp add: le_mod_geq)
    also have "\<dots> = f1 - 65535"
      using False b by simp
    finally show ?thesis using False d by simp
  qed
  then show ?thesis
    by (simp add: fold16_def Let_def f1_def)
qed

lemma fold16_mod:
  assumes "t < 4294967296"
  shows "fold16 t mod 65535 = t mod 65535"
proof -
  define q r where "q = t div 65536" and "r = t mod 65536"
  have t: "t = 65535 * q + (q + r)" unfolding q_def r_def by simp
  have "t mod 65535 = (q + r) mod 65535"
    by (subst t) (rule mod_mult_self4)
  moreover have "fold16 t mod 65535 = (q + r) mod 65535"
    using fold16_cases [OF assms] unfolding q_def [symmetric] r_def [symmetric]
    by (auto simp: not_less le_mod_geq)
  ultimately show ?thesis by simp
qed

lemma fold16_pos:
  assumes "t < 4294967296" and "0 < t"
  shows "0 < fold16 t \<and> fold16 t \<le> 65535"
proof -
  define f1 where "f1 = t div 65536 + t mod 65536"
  have q: "t div 65536 < 65536" using assms by simp
  have r: "t mod 65536 < 65536" by simp
  have p: "0 < f1"
  proof (cases "t < 65536")
    case True
    with assms(2) show ?thesis by (simp add: f1_def)
  next
    case False
    then have "0 < t div 65536" by (simp add: div_greater_zero_iff)
    then show ?thesis by (simp add: f1_def)
  qed
  have b: "f1 \<le> 131070" unfolding f1_def using q r by linarith
  have f: "fold16 t = (if f1 < 65536 then f1 else f1 - 65535)"
    using fold16_cases [OF assms(1)] by (simp add: f1_def)
  show ?thesis
  proof (cases "f1 < 65536")
    case True
    with f p show ?thesis by simp
  next
    case False
    with f b show ?thesis by simp
  qed
qed

lemma fold16_valid:
  assumes "t < 4294901760"
  shows "fold16 (t + (65535 - fold16 t)) = 65535"
proof -
  have t: "t < 4294967296" using assms by simp
  have le: "fold16 t \<le> 65535"
    using fold16_pos [OF t] by (cases "t = 0") (simp_all add: fold16_def)
  define t' where "t' = t + (65535 - fold16 t)"
  have t': "t' < 4294967296" unfolding t'_def using assms by simp
  have pos: "0 < t'"
    using fold16_pos [OF t] unfolding t'_def by (cases "t = 0") (simp_all add: fold16_def)
  have "(t' + fold16 t) mod 65535 = (t + 65535) mod 65535"
    unfolding t'_def using le by simp
  then have "(t' + fold16 t) mod 65535 = t mod 65535" by simp
  then have "(t' mod 65535 + fold16 t mod 65535) mod 65535 = t mod 65535"
    by (simp add: mod_add_eq)
  then have e: "(t' mod 65535 + t mod 65535) mod 65535 = t mod 65535"
    by (simp add: fold16_mod [OF t])
  have aux: "x = 0" if "x < 65535" and "y < 65535" and "(x + y) mod 65535 = y" for x y :: nat
  proof (cases "x + y < 65535")
    case True
    with that(3) show ?thesis by simp
  next
    case False
    then have "(x + y) mod 65535 = (x + y - 65535) mod 65535"
      by (simp add: le_mod_geq)
    also have "\<dots> = x + y - 65535"
      using that(1,2) by simp
    finally show ?thesis using that False by linarith
  qed
  have "t' mod 65535 = 0"
    using aux [of "t' mod 65535" "t mod 65535"] e by simp
  then have "fold16 t' mod 65535 = 0" by (simp add: fold16_mod [OF t'])
  with fold16_pos [OF t' pos] have "fold16 t' = 65535"
    by (cases "fold16 t' < 65535") simp_all
  then show ?thesis by (simp add: t'_def)
qed

lemma unat_byte_lt: "unat (b :: byte) < 256"
  using unsigned_less [of b, where 'a = nat] by simp

lemma unat_pair:
  "unat (push_bit 8 (ucast (b1 :: byte)) OR ucast (b0 :: byte) :: 32 word) = 256 * unat b1 + unat b0"
proof -
  have "(push_bit 8 (ucast b1) OR ucast b0 :: 32 word) = push_bit 8 (ucast b1) + ucast b0"
    by (rule disjunctive_add [symmetric]) (auto simp: bit_simps dest: bit_imp_le_length)
  moreover have "unat (push_bit 8 (ucast b1) :: 32 word) = 256 * unat b1"
    unfolding unsigned_push_bit_eq unsigned_ucast_eq
    using unat_byte_lt [of b1] by (simp add: take_bit_nat_def push_bit_eq_mult)
  moreover have "unat (ucast b0 :: 32 word) = unat b0"
    using unat_byte_lt [of b0] by (simp add: unsigned_ucast_eq take_bit_nat_def)
  ultimately show ?thesis
    using unat_byte_lt [of b0] unat_byte_lt [of b1]
    by (simp add: unat_word_ariths)
qed

lemma natsum_le: "natsum bs \<le> 65536 * length bs"
proof (induction bs rule: natsum.induct)
  case (1 b0 b1 bs)
  then show ?case using unat_byte_lt [of b0] unat_byte_lt [of b1] by simp
next
  case (2 b0)
  then show ?case using unat_byte_lt [of b0] by simp
next
  case 3
  then show ?case by simp
qed

lemma unat_sum16:
  "unat s + 65536 * length bs < 4294967296 \<Longrightarrow> unat (sum16 bs s) = unat s + natsum bs"
proof (induction bs s rule: sum16.induct)
  case (1 b0 b1 bs s)
  let ?w = "push_bit 8 (ucast b1) OR ucast b0 :: 32 word"
  have w: "unat ?w = 256 * unat b1 + unat b0" by (rule unat_pair)
  have lt: "unat ?w < 65536"
    using unat_byte_lt [of b0] unat_byte_lt [of b1] by (simp add: w)
  have "unat s + unat ?w < 2 ^ LENGTH(32)"
    using "1.prems" lt by simp
  then have add: "unat (s + ?w) = unat s + unat ?w"
    by (simp only: unat_add_lem)
  have "unat (s + ?w) + 65536 * length bs < 4294967296"
    using "1.prems" lt by (simp add: add)
  from "1.IH" [OF this] show ?case
    by (simp add: add w)
next
  case (2 b0 s)
  have b: "unat (ucast b0 :: 32 word) = unat b0"
    using unat_byte_lt [of b0] by (simp add: unsigned_ucast_eq take_bit_nat_def)
  have "unat s + unat (ucast b0 :: 32 word) < 2 ^ LENGTH(32)"
    using "2.prems" unat_byte_lt [of b0] by (simp add: b)
  then have "unat (s + ucast b0) = unat s + unat (ucast b0 :: 32 word)"
    by (simp only: unat_add_lem)
  then show ?case by (simp add: b)
next
  case (3 s)
  then show ?case by simp
qed

lemma unat_not16: "unat (NOT w :: 16 word) = 65535 - unat w"
proof -
  have "NOT w = - 1 - w" by (simp add: not_eq_complement)
  moreover have "w \<le> - 1" by simp
  ultimately have "unat (NOT w) = unat (- 1 :: 16 word) - unat w"
    by (simp only: unat_sub)
  then show ?thesis by (simp add: unsigned_minus_1_eq_mask mask_eq_exp_minus_1)
qed

lemma unat_checksum:
  assumes "length b < 65535"
  shows "unat (checksum b) = 65535 - fold16 (natsum b)"
proof -
  define s where "s = sum16 b 0"
  define t where "t = natsum b"
  have t: "unat s = t"
    using assms unat_sum16 [of 0 b] by (simp add: s_def t_def)
  have tb: "t < 4294967296"
    using natsum_le [of b] assms by (simp add: t_def)
  have "(0xffff :: 32 word) = mask 16"
    by (simp add: mask_eq_exp_minus_1)
  then have "s AND 0xffff = take_bit 16 s"
    by (simp only: take_bit_eq_mask)
  then have m: "unat (s AND 0xffff) = t mod 65536"
    by (simp add: unsigned_take_bit_eq take_bit_nat_def t)
  have d: "unat (drop_bit 16 s) = t div 65536"
    by (simp add: drop_bit_eq_div unat_div t)
  define s1 where "s1 = drop_bit 16 s + (s AND 0xffff)"
  have "t div 65536 < 65536" using tb by simp
  then have "unat (drop_bit 16 s) + unat (s AND 0xffff) < 2 ^ LENGTH(32)"
    by (simp add: m d)
  from unat_add_lem [THEN iffD1, OF this] have s1: "unat s1 = t div 65536 + t mod 65536"
    by (simp only: s1_def m d)
  define s2 where "s2 = s1 + drop_bit 16 s1"
  have d1: "unat (drop_bit 16 s1) = unat s1 div 65536"
    by (simp add: drop_bit_eq_div unat_div)
  have "unat s1 < 131072" using \<open>t div 65536 < 65536\<close> by (simp add: s1)
  then have "unat s1 + unat (drop_bit 16 s1) < 2 ^ LENGTH(32)"
    by (simp add: d1)
  from unat_add_lem [THEN iffD1, OF this] have s2: "unat s2 = unat s1 + unat s1 div 65536"
    by (simp only: s2_def d1)
  have "unat (ucast s2 :: 16 word) = unat s2 mod 65536"
    by (simp add: unsigned_ucast_eq take_bit_nat_def)
  then have "unat (ucast s2 :: 16 word) = fold16 t"
    by (simp add: s2 s1 fold16_def Let_def)
  then show ?thesis
    by (simp add: checksum_def Let_def unat_not16 s_def [symmetric] s1_def [symmetric] s2_def [symmetric] t_def)
qed

lemma split16:
  "256 * unat (ucast (drop_bit 8 s) :: byte) + unat (ucast s :: byte) = unat (s :: 16 word)"
proof -
  have lt: "unat s < 65536"
    using unsigned_less [of s, where 'a = nat] by simp
  have lo: "unat (ucast s :: byte) = unat s mod 256"
    by (simp add: unsigned_ucast_eq take_bit_nat_def)
  have "unat (ucast (drop_bit 8 s) :: byte) = (unat s div 256) mod 256"
    by (simp add: unsigned_ucast_eq take_bit_nat_def drop_bit_eq_div unat_div)
  also have "\<dots> = unat s div 256"
    using lt by simp
  finally show ?thesis
    by (simp add: lo)
qed

lemma Marshal_bytes:
  "Marshal m = Inr (word_of_int (Type m) # word_of_int (Code m)
      # ucast (checksum ([word_of_int (Type m), word_of_int (Code m), 0, 0] @ marshalBody (Body m)))
      # ucast (drop_bit 8 (checksum ([word_of_int (Type m), word_of_int (Code m), 0, 0] @ marshalBody (Body m))))
      # marshalBody (Body m))"
  by (simp add: Marshal_def Let_def)

lemma Marshal_checksum:
  assumes "length (marshalBody (Body m)) < 65000" and "Marshal m = Inr b"
  shows "checksum b = 0"
proof -
  define ty :: byte where "ty = word_of_int (Type m)"
  define code :: byte where "code = word_of_int (Code m)"
  define body where "body = marshalBody (Body m)"
  define b0 where "b0 = [ty, code, 0, 0] @ body"
  define s where "s = checksum b0"
  define T where "T = natsum b0"
  have b: "b = ty # code # ucast s # ucast (drop_bit 8 s) # body"
    using assms(2) by (simp add: Marshal_bytes ty_def code_def body_def b0_def s_def)
  have len: "length b0 < 65535" "length b < 65535"
    using assms(1) by (simp_all add: b0_def b body_def)
  have Tb: "T < 4294901760"
    using natsum_le [of b0] assms(1) by (simp add: T_def b0_def body_def)
  have s: "unat s = 65535 - fold16 T"
    unfolding s_def T_def by (rule unat_checksum [OF len(1)])
  have "natsum b = natsum b0 + unat s"
    using split16 [of s] by (simp add: b b0_def)
  then have "natsum b = T + (65535 - fold16 T)"
    by (simp add: s T_def)
  then have "fold16 (natsum b) = 65535"
    by (simp add: fold16_valid [OF Tb])
  then have "unat (checksum b) = 0"
    by (simp add: unat_checksum [OF len(2)])
  then show ?thesis
    by (simp only: unat_eq_0)
qed

lemma be16_PutUint16: "be16 (PutUint16 w ! 0) (PutUint16 w ! 1) = uint w"
proof -
  have "(ucast (ucast w :: byte) :: 16 word) OR push_bit 8 (ucast (ucast (drop_bit 8 w) :: byte)) = w"
    by (rule bit_word_eqI) (auto simp: bit_simps)
  then show ?thesis
    by (simp add: be16_def PutUint16_def)
qed

lemma uint_word16_of_int: "0 \<le> k \<Longrightarrow> k < 65536 \<Longrightarrow> uint (word_of_int k :: 16 word) = k"
  by (simp add: uint_word_of_int)

lemma keep16_range: "0 \<le> (processID :: int) AND 0xffff \<and> processID AND 0xffff < 65536"
proof -
  have "processID AND 0xffff \<le> 0xffff"
    by (rule AND_upper2) simp
  then show ?thesis by simp
qed

lemma be16_split: "be16 (ucast (drop_bit 8 w)) (ucast w) = uint (w :: 16 word)"
  using be16_PutUint16 [of w] by (simp add: PutUint16_def)

lemma keep16_mod: "(processID :: int) AND 0xffff = processID mod 65536"
proof -
  have "(0xffff :: int) = mask 16" by (simp add: mask_eq_exp_minus_1)
  then have "processID AND 0xffff = take_bit 16 processID"
    by (simp only: take_bit_eq_mask)
  then show ?thesis by (simp add: take_bit_int_def)
qed

lemma Marshal_echoRequest:
  assumes "0 \<le> i" "i < 65536" "0 \<le> s" "s < 65536"
    and "Marshal (echoRequest i s) = Inr b"
  shows "length b = 13 \<and> uint (b ! 0) = ICMPTypeEcho \<and> uint (b ! 1) = 0
       \<and> be16 (b ! 4) (b ! 5) = i \<and> be16 (b ! 6) (b ! 7) = s \<and> drop 8 b = hello"
  using assms
  by (auto simp: Marshal_bytes echoRequest_def marshalBody_def PutUint16_def hello_def
      be16_split uint_word16_of_int)

lemma Marshal_checksum_field:
  assumes "Marshal m = Inr b"
  shows "b ! 2 = ucast (checksum (b[2 := 0, 3 := 0]))
       \<and> b ! 3 = ucast (drop_bit 8 (checksum (b[2 := 0, 3 := 0])))"
  using assms [symmetric] by (simp add: Marshal_bytes)

text \<open>
  C7, the claim as stated. It says that the checksum is never transmitted as zero. The
  checksum field is the complement of a sum and is zero whenever the sum of the other
  16-bit words folds to \<open>0xffff\<close>: the first Echo Request of a process whose identity ends
  in \<open>0xB42C\<close> leaves with the checksum bytes \<open>00 00\<close>, and that is its correct checksum.
\<close>

theorem checksum_field_zero:
  "sent (snd (probe Marshal ParseMessage 0xB42C conn0 ''192.0.2.1'' 1 1 5))
     = [(1, ''192.0.2.1'', [8, 0, 0, 0, 0xb4, 0x2c, 0, 1, 0x68, 0x65, 0x6c, 0x6c, 0x6f])]
   \<and> checksum [8, 0, 0, 0, 0xb4, 0x2c, 0, 1, 0x68, 0x65, 0x6c, 0x6c, 0x6f] = 0"
proof
  have d: "setDeadlineErr conn0 = None" by (simp add: conn0_def)
  have m: "Marshal (echoRequest (0xB42C AND 0xffff) 1)
      = Inr [8, 0, 0, 0, 0xb4, 0x2c, 0, 1, 0x68, 0x65, 0x6c, 0x6c, 0x6f]"
    by (simp add: Marshal_def echoRequest_def marshalBody_def PutUint16_def hello_def
        checksum_def Let_def)
  show "sent (snd (probe Marshal ParseMessage 0xB42C conn0 ''192.0.2.1'' 1 1 5))
     = [(1, ''192.0.2.1'', [8, 0, 0, 0, 0xb4, 0x2c, 0, 1, 0x68, 0x65, 0x6c, 0x6c, 0x6f])]"
    by (simp add: probe_sent [where marshal = Marshal and processID = "0xB42C", OF d m])
       (simp add: conn0_def)
  show "checksum [8, 0, 0, 0, 0xb4, 0x2c, 0, 1, 0x68, 0x65, 0x6c, 0x6c, 0x6f] = 0"
    by (simp add: checksum_def Let_def)
qed

text \<open>
  C7, amended. The message \<open>probe\<close> builds is an Echo Request (type 8, code 0) whose
  identifier is the process identity masked to its low 16 bits, whose sequence number is
  the one given (a 16-bit value) and whose payload is the five bytes of \<open>hello\<close>. The
  checksum field on the wire is never stale: it is the checksum computed over the full
  message with the field at zero, and the transmitted bytes verify, that is, their
  checksum recomputed over them is zero. These bytes are what \<open>probe\<close> writes to the
  socket. When the message cannot be serialized, \<open>probe\<close> returns that error to its caller
  and nothing is written or read.
\<close>

theorem echo_request_encoding:
  assumes "0 \<le> seqNum" and "seqNum < 65536"
  shows "\<exists>b. Marshal (echoRequest (processID AND 0xffff) seqNum) = Inr b
           \<and> length b = 13
           \<and> uint (b ! 0) = ICMPTypeEcho \<and> uint (b ! 1) = 0
           \<and> be16 (b ! 4) (b ! 5) = processID mod 65536
           \<and> be16 (b ! 6) (b ! 7) = seqNum
           \<and> drop 8 b = hello \<and> hello \<noteq> []
           \<and> b ! 2 = ucast (checksum (b[2 := 0, 3 := 0]))
           \<and> b ! 3 = ucast (drop_bit 8 (checksum (b[2 := 0, 3 := 0])))
           \<and> checksum b = 0
           \<and> (\<forall>c parse dstAddr TTL waitTime.
                 setDeadlineErr c = None \<and> writeErr c = None \<longrightarrow>
                 (\<exists>t. sent (snd (probe Marshal parse processID c dstAddr TTL seqNum waitTime))
                   = sent c @ [(t, dstAddr, b)]))
           \<and> (\<forall>marshal e c parse dstAddr TTL waitTime.
                 setDeadlineErr c = None
                 \<and> marshal (echoRequest (processID AND 0xffff) seqNum) = Inl e \<longrightarrow>
                 fst (probe marshal parse processID c dstAddr TTL seqNum waitTime) = Failed e
                 \<and> sent (snd (probe marshal parse processID c dstAddr TTL seqNum waitTime)) = sent c
                 \<and> inbox (snd (probe marshal parse processID c dstAddr TTL seqNum waitTime))
                     = inbox c)"
proof -
  obtain b where b: "Marshal (echoRequest (processID AND 0xffff) seqNum) = Inr b"
    by (simp add: Marshal_def Let_def)
  have r: "0 \<le> processID AND 0xffff" "processID AND 0xffff < 65536"
    using keep16_range [of processID] by simp_all
  from Marshal_echoRequest [OF r assms b]
  have f: "length b = 13" "uint (b ! 0) = ICMPTypeEcho" "uint (b ! 1) = 0"
    "be16 (b ! 4) (b ! 5) = processID mod 65536" "be16 (b ! 6) (b ! 7) = seqNum" "drop 8 b = hello"
    by (simp_all add: keep16_mod)
  have "length (marshalBody (Body (echoRequest (processID AND 0xffff) seqNum))) < 65000"
    by (simp add: echoRequest_def marshalBody_def PutUint16_def hello_def)
  from Marshal_checksum [OF this b] have c: "checksum b = 0" .
  from Marshal_checksum_field [OF b]
  have k: "b ! 2 = ucast (checksum (b[2 := 0, 3 := 0]))"
    "b ! 3 = ucast (drop_bit 8 (checksum (b[2 := 0, 3 := 0])))"
    by simp_all
  have h: "hello \<noteq> []" by (simp add: hello_def)
  have s: "\<exists>t. sent (snd (probe Marshal parse processID c dstAddr TTL seqNum waitTime))
                   = sent c @ [(t, dstAddr, b)]"
    if "setDeadlineErr c = None \<and> writeErr c = None" for c parse dstAddr TTL waitTime
    using that
    by (simp add: probe_sent [where marshal = Marshal and processID = processID
          and seqNum = seqNum and msgBytes = b, OF _ b])
  have e: "fst (probe marshal parse processID c dstAddr TTL seqNum waitTime) = Failed e
           \<and> sent (snd (probe marshal parse processID c dstAddr TTL seqNum waitTime)) = sent c
           \<and> inbox (snd (probe marshal parse processID c dstAddr TTL seqNum waitTime)) = inbox c"
    if "setDeadlineErr c = None \<and> marshal (echoRequest (processID AND 0xffff) seqNum) = Inl e"
    for marshal e c parse dstAddr TTL waitTime
    using that probe_marshal_error [where marshal = marshal and processID = processID] by blast
  from b f c k h s e show ?thesis by blast
qed

theorem echo_request_encoding_witness:
  "(0 :: int) \<le> 3 \<and> (3 :: int) < 65536
   \<and> Marshal (echoRequest (0x51234 AND 0xffff) 3) = Inr echoRequestBytes
   \<and> be16 (echoRequestBytes ! 4) (echoRequestBytes ! 5) = 0x51234 mod 65536
   \<and> be16 (echoRequestBytes ! 6) (echoRequestBytes ! 7) = 3
   \<and> checksum echoRequestBytes = 0
   \<and> (\<exists>t. sent (snd (probe Marshal ParseMessage 0x51234 conn0 ''192.0.2.1'' 1 3 5))
         = [(t, ''192.0.2.1'', echoRequestBytes)])
   \<and> fst (probe (\<lambda>m. Inl (ErrOther ''cannot marshal'')) ParseMessage 0x51234 conn0
         ''192.0.2.1'' 1 3 5) = Failed (ErrOther ''cannot marshal'')
   \<and> sent (snd (probe (\<lambda>m. Inl (ErrOther ''cannot marshal'')) ParseMessage 0x51234 conn0
         ''192.0.2.1'' 1 3 5)) = []"
proof -
  have m: "Marshal (echoRequest (0x51234 AND 0xffff) 3) = Inr echoRequestBytes"
    by (simp add: Marshal_def echoRequest_def marshalBody_def PutUint16_def hello_def
        checksum_def Let_def echoRequestBytes_def)
  have c0: "setDeadlineErr conn0 = None \<and> writeErr conn0 = None" "sent conn0 = []"
    by (simp_all add: conn0_def)
  have f: "setDeadlineErr conn0 = None
      \<and> (\<lambda>m. Inl (ErrOther ''cannot marshal'')) (echoRequest (0x51234 AND 0xffff) 3)
          = (Inl (ErrOther ''cannot marshal'') :: error + byte list)"
    by (simp add: conn0_def)
  from echo_request_encoding [of 3 "0x51234"] obtain b where
    b: "Marshal (echoRequest (0x51234 AND 0xffff) 3) = Inr b"
    and i: "be16 (b ! 4) (b ! 5) = 0x51234 mod 65536"
    and s: "be16 (b ! 6) (b ! 7) = 3"
    and c: "checksum b = 0"
    and p: "\<forall>c parse dstAddr TTL waitTime.
                 setDeadlineErr c = None \<and> writeErr c = None \<longrightarrow>
                 (\<exists>t. sent (snd (probe Marshal parse 0x51234 c dstAddr TTL 3 waitTime))
                   = sent c @ [(t, dstAddr, b)])"
    and e: "\<forall>marshal e c parse dstAddr TTL waitTime.
                 setDeadlineErr c = None
                 \<and> marshal (echoRequest (0x51234 AND 0xffff) 3) = Inl e \<longrightarrow>
                 fst (probe marshal parse 0x51234 c dstAddr TTL 3 waitTime) = Failed e
                 \<and> sent (snd (probe marshal parse 0x51234 c dstAddr TTL 3 waitTime)) = sent c
                 \<and> inbox (snd (probe marshal parse 0x51234 c dstAddr TTL 3 waitTime)) = inbox c"
    by auto
  from b m have eq: "b = echoRequestBytes" by simp
  have p': "\<exists>t. sent (snd (probe Marshal ParseMessage 0x51234 conn0 ''192.0.2.1'' 1 3 5))
       = [(t, ''192.0.2.1'', echoRequestBytes)]"
    using p [rule_format, OF c0(1), of ParseMessage "''192.0.2.1''" 1 5] by (simp add: eq c0)
  have e': "fst (probe (\<lambda>m. Inl (ErrOther ''cannot marshal'')) ParseMessage 0x51234 conn0
         ''192.0.2.1'' 1 3 5) = Failed (ErrOther ''cannot marshal'')"
    "sent (snd (probe (\<lambda>m. Inl (ErrOther ''cannot marshal'')) ParseMessage 0x51234 conn0
         ''192.0.2.1'' 1 3 5)) = []"
    using e [rule_format, OF f, of ParseMessage "''192.0.2.1''" 1 5] by (simp_all add: c0)
  from m i s c p' e' show ?thesis by (simp add: eq)
qed

text \<open>
  C8. For every 16-bit run token and sequence number, the bytes of the Echo Request, turned
  into an Echo Reply by setting the type byte to 0, decode to an Echo Reply that carries
  the same run token and sequence number, and the wait loop accepts it as the answer to
  the probe.
\<close>

theorem echo_round_trip:
  assumes "0 \<le> runToken" "runToken < 65536" "0 \<le> seqNum" "seqNum < 65536"
  shows "\<exists>b m. Marshal (echoRequest runToken seqNum) = Inr b
        \<and> ParseMessage (b[0 := word_of_int ICMPTypeEchoReply]) = Inr m
        \<and> Type m = ICMPTypeEchoReply \<and> Body m = Echo runToken seqNum hello
        \<and> checkIncoming runToken seqNum m = Accept ICMPTypeEchoReply"
proof -
  obtain b where b: "Marshal (echoRequest runToken seqNum) = Inr b"
    by (simp add: Marshal_def Let_def)
  define m where "m = \<lparr>Type = ICMPTypeEchoReply, Code = 0, Checksum = be16 (b ! 2) (b ! 3),
    Body = Echo runToken seqNum hello\<rparr>"
  have bb: "b = 8 # 0 # b ! 2 # b ! 3
      # PutUint16 (word_of_int runToken) @ PutUint16 (word_of_int seqNum) @ hello"
    using b [symmetric] by (simp add: Marshal_bytes echoRequest_def marshalBody_def)
  have p: "ParseMessage (b[0 := word_of_int ICMPTypeEchoReply]) = Inr m"
    using assms
    by (subst bb) (simp add: PutUint16_def hello_def ParseMessage_def Let_def be16_split
        uint_word16_of_int m_def)
  have "checkIncoming runToken seqNum m = Accept ICMPTypeEchoReply"
    by (simp add: checkIncoming_def m_def)
  with b p show ?thesis by (auto simp: m_def)
qed

theorem echo_round_trip_witness:
  "(0 :: int) \<le> 0x1234 \<and> (0x1234 :: int) < 65536 \<and> (0 :: int) \<le> 3 \<and> (3 :: int) < 65536
   \<and> Marshal (echoRequest 0x1234 3) = Inr echoRequestBytes
   \<and> ParseMessage (echoRequestBytes[0 := word_of_int ICMPTypeEchoReply])
       = Inr \<lparr>Type = ICMPTypeEchoReply, Code = 0, Checksum = 0xa1f6, Body = Echo 0x1234 3 hello\<rparr>
   \<and> checkIncoming 0x1234 3
         \<lparr>Type = ICMPTypeEchoReply, Code = 0, Checksum = 0xa1f6, Body = Echo 0x1234 3 hello\<rparr>
       = Accept ICMPTypeEchoReply"
proof -
  have m: "Marshal (echoRequest 0x1234 3) = Inr echoRequestBytes"
    by (simp add: Marshal_def echoRequest_def marshalBody_def PutUint16_def hello_def
        checksum_def Let_def echoRequestBytes_def)
  from echo_round_trip [of "0x1234" 3] obtain b m' where
    b: "Marshal (echoRequest 0x1234 3) = Inr b"
    and p: "ParseMessage (b[0 := word_of_int ICMPTypeEchoReply]) = Inr m'"
    and t: "Type m' = ICMPTypeEchoReply" and bd: "Body m' = Echo 0x1234 3 hello"
    and a: "checkIncoming 0x1234 3 m' = Accept ICMPTypeEchoReply"
    by auto
  from b m have eq: "b = echoRequestBytes" by simp
  have p': "ParseMessage (echoRequestBytes[0 := word_of_int ICMPTypeEchoReply])
       = Inr \<lparr>Type = ICMPTypeEchoReply, Code = 0, Checksum = 0xa1f6, Body = Echo 0x1234 3 hello\<rparr>"
    by (simp add: ParseMessage_def echoRequestBytes_def be16_def hello_def)
  with p eq have "m' = \<lparr>Type = ICMPTypeEchoReply, Code = 0, Checksum = 0xa1f6, Body = Echo 0x1234 3 hello\<rparr>"
    by simp
  with a m p' show ?thesis by simp
qed

section \<open>The log of a run\<close>
















section \<open>Claims about the driver\<close>




text \<open>
  C6. The claim: the driver goes through the TTL values 1, 2, \<dots> in order and ends in one
  of two states, Reached or Exhausted, and never probes beyond \<open>maxTTL\<close>. The order, the
  bound and the two ends hold of every run in which no probe panics (\<open>main_log\<close>). A Time
  Exceeded without payload ends the run in neither state: here the three probes of hop 1
  are answered, and the first probe of hop 2 panics in its wait, which ends the process.
\<close>

theorem run_crashes_at_hop_2:
  "fst (main Marshal ParseMessage 0x1234 ''192.0.2.1'' 5 3 64 crashAtHop2)
     = Crashed SliceBoundsOutOfRange
   \<and> issued (snd (main Marshal ParseMessage 0x1234 ''192.0.2.1'' 5 3 64 crashAtHop2))
     = [(1, 1, Responded ''10.0.0.1'' 10 ICMPTypeTimeExceeded),
        (1, 2, Responded ''10.0.0.1'' 10 ICMPTypeTimeExceeded),
        (1, 3, Responded ''10.0.0.1'' 10 ICMPTypeTimeExceeded),
        (2, 4, Panicked SliceBoundsOutOfRange)]"
proof
  show "fst (main Marshal ParseMessage 0x1234 ''192.0.2.1'' 5 3 64 crashAtHop2)
     = Crashed SliceBoundsOutOfRange"
    by code_simp
  show "issued (snd (main Marshal ParseMessage 0x1234 ''192.0.2.1'' 5 3 64 crashAtHop2))
     = [(1, 1, Responded ''10.0.0.1'' 10 ICMPTypeTimeExceeded),
        (1, 2, Responded ''10.0.0.1'' 10 ICMPTypeTimeExceeded),
        (1, 3, Responded ''10.0.0.1'' 10 ICMPTypeTimeExceeded),
        (2, 4, Panicked SliceBoundsOutOfRange)]"
    by code_simp
qed

text \<open>
  C9. The claim: after a probe of a hop has seen an Echo Reply, the driver still sends the
  remaining probes of the hop and exits after the last. It does in every run that ends
  with Reached (\<open>main_log\<close>: the log ends with the full hop). Here the first of three probes
  sees the Echo Reply of the destination, the second reads a Time Exceeded without payload
  and panics, and the third is never sent.
\<close>

theorem quota_cut_short_by_crash:
  "fst (main Marshal ParseMessage 0x1234 ''192.0.2.1'' 5 3 64 crashAfterReply)
     = Crashed SliceBoundsOutOfRange
   \<and> issued (snd (main Marshal ParseMessage 0x1234 ''192.0.2.1'' 5 3 64 crashAfterReply))
     = [(1, 1, Responded ''192.0.2.1'' 10 ICMPTypeEchoReply),
        (1, 2, Panicked SliceBoundsOutOfRange)]"
proof
  show "fst (main Marshal ParseMessage 0x1234 ''192.0.2.1'' 5 3 64 crashAfterReply)
     = Crashed SliceBoundsOutOfRange"
    by code_simp
  show "issued (snd (main Marshal ParseMessage 0x1234 ''192.0.2.1'' 5 3 64 crashAfterReply))
     = [(1, 1, Responded ''192.0.2.1'' 10 ICMPTypeEchoReply),
        (1, 2, Panicked SliceBoundsOutOfRange)]"
    by code_simp
qed

end
